theory Spec2Isabelle
  imports Complex_Main "HOL-Library.Finite_Map"
begin

section \<open>Data model\<close>

text \<open>
  The program is \<^verbatim>\<open>hackrf_antenna_swr_utility/main.py\<close>, written for Python 2.
  Python floats are modelled as real numbers, so rounding, overflow, infinities and NaN are
  outside the model. A dictionary from frequencies to lists of power readings is a finite
  map. Exceptions are values of \<open>py_error\<close>; a function that may raise returns
  \<open>py_error + 'a\<close> with \<open>Inl\<close> for the exception.
\<close>

datatype py_error = KeyboardInterrupt | ValueError | KeyError | ZeroDivisionError

type_synonym freq_map = "(real, real list) fmap"

text \<open>
  What one call of \<^verbatim>\<open>proc.stdout.readline()\<close> delivers: a line of the child's output, or a
  \<^verbatim>\<open>KeyboardInterrupt\<close> raised while the call is blocked. The output of a child process
  that exits is a finite list of events; after the last one \<^verbatim>\<open>readline\<close> returns the
  empty string, again and again.
\<close>

datatype event = Line string | Interrupt

fun readline :: "event list \<Rightarrow> event \<times> event list" where
  "readline [] = (Line [], [])"
| "readline (e # es) = (e, es)"

text \<open>
  The local variables of a scan (\<^verbatim>\<open>frequencies\<close>, \<^verbatim>\<open>loop_cursor\<close>,
  \<^verbatim>\<open>max_encountered_frequency\<close>) and the number of \<^verbatim>\<open>SIGINT\<close> signals sent to the child
  with \<^verbatim>\<open>proc.send_signal\<close>.
\<close>

record scan_state =
  frequencies :: freq_map
  loop_cursor :: int
  max_encountered_frequency :: real
  sigints :: nat

definition initial_state :: scan_state where
  "initial_state =
     \<lparr>frequencies = fmempty, loop_cursor = 0, max_encountered_frequency = 0, sigints = 0\<rparr>"

text \<open>What an iteration of a \<^verbatim>\<open>while True\<close> loop ends with.\<close>

datatype step = Continue scan_state | Break scan_state | Raise py_error nat

section \<open>String operations of Python used by the scans\<close>

definition is_space :: "char \<Rightarrow> bool" where
  "is_space c \<longleftrightarrow> c \<in> {CHR 0x20, CHR 0x09, CHR 0x0A, CHR 0x0D, CHR 0x0B, CHR 0x0C}"

text \<open>\<^verbatim>\<open>str.strip()\<close>: whitespace removed at both ends.\<close>

definition strip :: "string \<Rightarrow> string" where
  "strip s = rev (dropWhile is_space (rev (dropWhile is_space s)))"

text \<open>\<^verbatim>\<open>str.split(sep)\<close> with a one-character separator: empty fields are kept, and the
  empty string gives one empty field.\<close>

fun split_on :: "char \<Rightarrow> string \<Rightarrow> string list" where
  "split_on sep [] = [[]]"
| "split_on sep (c # cs) =
     (if c = sep then [] # split_on sep cs
      else (case split_on sep cs of [] \<Rightarrow> [[c]] | w # ws \<Rightarrow> (c # w) # ws))"

text \<open>
  \<^verbatim>\<open>float(s)\<close> on a string is a parameter \<open>flt\<close> of the scans: \<open>None\<close> is
  \<^verbatim>\<open>ValueError\<close>. \<open>decimal_float\<close> is its fragment for plain decimal literals (optional
  sign, digits, optional point and digits, surrounded by optional whitespace), used for
  concrete inputs; exponents and the special values are not in the fragment.
\<close>

definition is_digit :: "char \<Rightarrow> bool" where
  "is_digit c \<longleftrightarrow> (48::nat) \<le> of_char c \<and> of_char c \<le> (57::nat)"

fun digits_value :: "nat \<Rightarrow> string \<Rightarrow> nat" where
  "digits_value acc [] = acc"
| "digits_value acc (c # cs) = digits_value (10 * acc + (of_char c - 48)) cs"

definition unsigned_decimal :: "string \<Rightarrow> real option" where
  "unsigned_decimal s =
     (let ip = takeWhile is_digit s; rest = dropWhile is_digit s;
          fp = (case rest of [] \<Rightarrow> Some [] | c # r \<Rightarrow> if c = CHR ''.'' then Some r else None)
      in case fp of
           None \<Rightarrow> None
         | Some fr \<Rightarrow>
             if list_all is_digit fr \<and> \<not> (ip = [] \<and> fr = [])
             then Some (real (digits_value 0 ip) + real (digits_value 0 fr) / 10 ^ length fr)
             else None)"

definition decimal_float :: "string \<Rightarrow> real option" where
  "decimal_float s =
     (case strip s of
        [] \<Rightarrow> None
      | c # r \<Rightarrow>
          if c = CHR ''-'' then map_option uminus (unsigned_decimal r)
          else if c = CHR ''+'' then unsigned_decimal r
          else unsigned_decimal (c # r))"

section \<open>The two scans\<close>

text \<open>Lines 86-89 and 156-159: wrap-around detection on the frequency \<open>f\<close>.\<close>

definition track_frequency :: "real \<Rightarrow> scan_state \<Rightarrow> scan_state" where
  "track_frequency f st =
     (if f \<le> max_encountered_frequency st
      then st\<lparr>loop_cursor := loop_cursor st + 1\<rparr>
      else st\<lparr>max_encountered_frequency := f\<rparr>)"

text \<open>\<^verbatim>\<open>frequencies.setdefault(k, []).append(p)\<close>\<close>

definition setdefault_append :: "real \<Rightarrow> real \<Rightarrow> freq_map \<Rightarrow> freq_map" where
  "setdefault_append k p m =
     fmupd k (case fmlookup m k of None \<Rightarrow> [p] | Some ps \<Rightarrow> ps @ [p]) m"

definition record_power :: "real \<Rightarrow> real \<Rightarrow> scan_state \<Rightarrow> scan_state" where
  "record_power k p st = st\<lparr>frequencies := setdefault_append k p (frequencies st)\<rparr>"

text \<open>\<^verbatim>\<open>proc.send_signal(signal.SIGINT)\<close>\<close>

definition send_signal :: "scan_state \<Rightarrow> scan_state" where
  "send_signal st = st\<lparr>sigints := sigints st + 1\<rparr>"

subsection \<open>Format A: \<^verbatim>\<open>get_antenna_statistics_osmocom\<close>\<close>

text \<open>
  Lines 75-84: the ten-name tuple assignment from \<^verbatim>\<open>line.split(' ')\<close>, inside
  \<^verbatim>\<open>try\<close>/\<^verbatim>\<open>except: continue\<close>. Only the number of fields is checked; the fields at
  positions 3, 5 and 7 are \<^verbatim>\<open>center_freq\<close>, \<^verbatim>\<open>freq\<close> and \<^verbatim>\<open>power_db\<close>.
\<close>

definition unpack_fields :: "string \<Rightarrow> (string \<times> string \<times> string) option" where
  "unpack_fields line =
     (let fields = split_on CHR '' '' line
      in if length fields = 10 then Some (fields ! 3, fields ! 5, fields ! 7) else None)"

text \<open>
  Lines 69-99: the body of the loop after \<^verbatim>\<open>readline\<close>. The calls of \<^verbatim>\<open>float\<close> are
  outside the \<^verbatim>\<open>try\<close>, so their \<^verbatim>\<open>ValueError\<close> leaves the function.
\<close>

definition osmocom_body ::
  "(string \<Rightarrow> real option) \<Rightarrow> int \<Rightarrow> scan_state \<Rightarrow> string \<Rightarrow> step" where
  "osmocom_body flt loops st raw =
     (case unpack_fields (strip raw) of
        None \<Rightarrow> Continue st
      | Some (center_freq, freq, power_db) \<Rightarrow>
          (case flt freq of
             None \<Rightarrow> Raise ValueError (sigints st)
           | Some f \<Rightarrow>
               let st1 = track_frequency f st
               in if loops \<le> loop_cursor st1 then Break (send_signal st1)
                  else (case flt center_freq of
                          None \<Rightarrow> Raise ValueError (sigints st1)
                        | Some c \<Rightarrow>
                            (case flt power_db of
                               None \<Rightarrow> Raise ValueError (sigints st1)
                             | Some p \<Rightarrow> Continue (record_power c p st1)))))"

text \<open>
  Lines 66-104. The result is the exception raised or the map returned, with the number of
  signals sent to the child; \<open>None\<close> is a loop that never ends. The path and the two
  frequencies of the source's signature only make the command line of the child (lines
  51-60), whose output is the list of events here; \<^verbatim>\<open>loops\<close> is 5 by default for Format A
  and 1 for Format B.
\<close>

partial_function (option) osmocom_loop ::
  "(string \<Rightarrow> real option) \<Rightarrow> int \<Rightarrow> scan_state \<Rightarrow> event list
     \<Rightarrow> ((py_error + freq_map) \<times> nat) option" where
  "osmocom_loop flt loops st evs =
     (case readline evs of
        (Interrupt, rest) \<Rightarrow> Some (Inl KeyboardInterrupt, sigints (send_signal st))
      | (Line raw, rest) \<Rightarrow>
          (case osmocom_body flt loops st raw of
             Continue st' \<Rightarrow> osmocom_loop flt loops st' rest
           | Break st' \<Rightarrow> Some (Inr (frequencies st'), sigints st')
           | Raise e n \<Rightarrow> Some (Inl e, n)))"

definition get_antenna_statistics_osmocom ::
  "(string \<Rightarrow> real option) \<Rightarrow> int \<Rightarrow> event list \<Rightarrow> ((py_error + freq_map) \<times> nat) option" where
  "get_antenna_statistics_osmocom flt loops evs = osmocom_loop flt loops initial_state evs"

subsection \<open>Format B: \<^verbatim>\<open>get_antenna_statistics_rtl_power\<close>\<close>

text \<open>
  Lines 142-152: \<^verbatim>\<open>parts[2]\<close> and \<^verbatim>\<open>parts[4]\<close> raise \<^verbatim>\<open>IndexError\<close> on a short list and
  \<^verbatim>\<open>float\<close> raises \<^verbatim>\<open>ValueError\<close>; both are caught and the line is skipped. The slice
  \<^verbatim>\<open>parts[6:]\<close> never raises.
\<close>

definition rtl_decode ::
  "(string \<Rightarrow> real option) \<Rightarrow> string \<Rightarrow> (real \<times> real \<times> string list) option" where
  "rtl_decode flt line =
     (let parts = split_on CHR '','' line
      in if length parts \<le> 2 then None
         else (case flt (parts ! 2) of
                 None \<Rightarrow> None
               | Some base_freq \<Rightarrow>
                   if length parts \<le> 4 then None
                   else (case flt (parts ! 4) of
                           None \<Rightarrow> None
                         | Some interval \<Rightarrow> Some (base_freq, interval, drop 6 parts))))"

text \<open>
  Lines 154-169: the \<^verbatim>\<open>for\<close> loop over \<^verbatim>\<open>enumerate(measurements)\<close>. Its \<^verbatim>\<open>break\<close> leaves
  this loop only; \<^verbatim>\<open>float(power)\<close> (here \<open>flt pwr\<close>) is outside every \<^verbatim>\<open>try\<close> but the one for
  \<^verbatim>\<open>KeyboardInterrupt\<close>.
\<close>

fun rtl_bins ::
  "(string \<Rightarrow> real option) \<Rightarrow> int \<Rightarrow> real \<Rightarrow> real \<Rightarrow> scan_state \<Rightarrow> (nat \<times> string) list
     \<Rightarrow> py_error + scan_state" where
  "rtl_bins flt loops base_freq interval st [] = Inr st"
| "rtl_bins flt loops base_freq interval st ((idx, pwr) # rest) =
     (let freq = base_freq + real idx * interval;
          st1 = track_frequency freq st
      in if loops \<le> loop_cursor st1 then Inr (send_signal st1)
         else (case flt pwr of
                 None \<Rightarrow> Inl ValueError
               | Some p \<Rightarrow> rtl_bins flt loops base_freq interval (record_power freq p st1) rest))"

text \<open>Lines 136-169: the body of the outer loop after \<^verbatim>\<open>readline\<close>.\<close>

definition rtl_power_body ::
  "(string \<Rightarrow> real option) \<Rightarrow> int \<Rightarrow> scan_state \<Rightarrow> string \<Rightarrow> step" where
  "rtl_power_body flt loops st raw =
     (let line = strip raw
      in if line = [] then Break st
         else (case rtl_decode flt line of
                 None \<Rightarrow> Continue st
               | Some (base_freq, interval, measurements) \<Rightarrow>
                   (case rtl_bins flt loops base_freq interval st (enumerate 0 measurements) of
                      Inl e \<Rightarrow> Raise e (sigints st)
                    | Inr st' \<Rightarrow> Continue st')))"

text \<open>
  Lines 133-173. The handler of \<^verbatim>\<open>KeyboardInterrupt\<close> sends the signal and has no
  \<^verbatim>\<open>raise\<close>: control reaches \<^verbatim>\<open>return frequencies\<close>.
\<close>

partial_function (option) rtl_power_loop ::
  "(string \<Rightarrow> real option) \<Rightarrow> int \<Rightarrow> scan_state \<Rightarrow> event list
     \<Rightarrow> ((py_error + freq_map) \<times> nat) option" where
  "rtl_power_loop flt loops st evs =
     (case readline evs of
        (Interrupt, rest) \<Rightarrow> Some (Inr (frequencies st), sigints (send_signal st))
      | (Line raw, rest) \<Rightarrow>
          (case rtl_power_body flt loops st raw of
             Continue st' \<Rightarrow> rtl_power_loop flt loops st' rest
           | Break st' \<Rightarrow> Some (Inr (frequencies st'), sigints st')
           | Raise e n \<Rightarrow> Some (Inl e, n)))"

definition get_antenna_statistics_rtl_power ::
  "(string \<Rightarrow> real option) \<Rightarrow> int \<Rightarrow> event list \<Rightarrow> ((py_error + freq_map) \<times> nat) option" where
  "get_antenna_statistics_rtl_power flt loops evs = rtl_power_loop flt loops initial_state evs"

subsection \<open>Format B with an interrupt inside an iteration\<close>

text \<open>
  \<^verbatim>\<open>KeyboardInterrupt\<close> is raised between two bytecode instructions, not only inside
  \<^verbatim>\<open>readline\<close>. The events of this second model of lines 133-173 also say where, in the
  iteration that processes a line, the interrupt is raised if control gets there:
  \<open>In_try\<close> is inside the \<^verbatim>\<open>try\<close> of lines 142-146, \<open>At_bin idx\<close> is the start of the
  \<^verbatim>\<open>for\<close> iteration of bin \<open>idx\<close> (before line 155), and \<open>In_record idx\<close> is in lines
  168-169 of that bin, after \<^verbatim>\<open>setdefault\<close> has returned and before \<^verbatim>\<open>float(power)\<close> and
  \<^verbatim>\<open>append\<close> run.
\<close>

datatype point = In_try | At_bin nat | In_record nat

datatype async_event = Read string | Interrupted_read | Interrupted_at string point

text \<open>
  \<^verbatim>\<open>frequencies.setdefault(k, [])\<close> creates the key with an empty list when it is absent
  and returns the list stored under the key; \<^verbatim>\<open>append\<close> then extends that list in place.
\<close>

definition setdefault :: "real \<Rightarrow> freq_map \<Rightarrow> freq_map \<times> real list" where
  "setdefault k m = (case fmlookup m k of None \<Rightarrow> (fmupd k [] m, []) | Some ps \<Rightarrow> (m, ps))"

definition list_append :: "real \<Rightarrow> real list \<Rightarrow> real \<Rightarrow> freq_map \<Rightarrow> freq_map" where
  "list_append k ps p m = fmupd k (ps @ [p]) m"

text \<open>
  The \<^verbatim>\<open>for\<close> loop of lines 154-169 with the interrupt at \<open>pt\<close>: it ends normally, with
  the \<^verbatim>\<open>ValueError\<close> of \<^verbatim>\<open>float(power)\<close>, or interrupted in the state reached.
\<close>

datatype bins_outcome = Finished scan_state | Failed py_error | Interrupted scan_state

fun rtl_bins_async ::
  "(string \<Rightarrow> real option) \<Rightarrow> int \<Rightarrow> real \<Rightarrow> real \<Rightarrow> point \<Rightarrow> scan_state \<Rightarrow> (nat \<times> string) list
     \<Rightarrow> bins_outcome" where
  "rtl_bins_async flt loops base_freq interval pt st [] = Finished st"
| "rtl_bins_async flt loops base_freq interval pt st ((idx, pwr) # rest) =
     (if pt = At_bin idx then Interrupted st
      else
        let freq = base_freq + real idx * interval;
            st1 = track_frequency freq st
        in if loops \<le> loop_cursor st1 then Finished (send_signal st1)
           else
             (case setdefault freq (frequencies st1) of
                (m, ps) \<Rightarrow>
                  if pt = In_record idx then Interrupted (st1\<lparr>frequencies := m\<rparr>)
                  else (case flt pwr of
                          None \<Rightarrow> Failed ValueError
                        | Some p \<Rightarrow>
                            rtl_bins_async flt loops base_freq interval pt
                              (st1\<lparr>frequencies := list_append freq ps p m\<rparr>) rest)))"

text \<open>
  The loop of lines 133-173. An interrupt inside the \<^verbatim>\<open>try\<close> of lines 142-146 is caught by
  the bare \<^verbatim>\<open>except\<close> of line 147, which logs it and continues with the next line. Any
  other interrupt reaches the handler of lines 170-171, which sends the signal, and line 173
  returns the map as it is at that moment. At the end of the stream \<^verbatim>\<open>readline\<close> returns
  the empty string and line 140 leaves the loop.
\<close>

fun rtl_power_async_loop ::
  "(string \<Rightarrow> real option) \<Rightarrow> int \<Rightarrow> scan_state \<Rightarrow> async_event list
     \<Rightarrow> (py_error + freq_map) \<times> nat" where
  "rtl_power_async_loop flt loops st [] = (Inr (frequencies st), sigints st)"
| "rtl_power_async_loop flt loops st (Interrupted_read # rest) =
     (Inr (frequencies st), sigints (send_signal st))"
| "rtl_power_async_loop flt loops st (Read raw # rest) =
     (case rtl_power_body flt loops st raw of
        Continue st' \<Rightarrow> rtl_power_async_loop flt loops st' rest
      | Break st' \<Rightarrow> (Inr (frequencies st'), sigints st')
      | Raise e n \<Rightarrow> (Inl e, n))"
| "rtl_power_async_loop flt loops st (Interrupted_at raw pt # rest) =
     (let line = strip raw
      in if line = [] then (Inr (frequencies st), sigints st)
         else if pt = In_try then rtl_power_async_loop flt loops st rest
         else (case rtl_decode flt line of
                 None \<Rightarrow> rtl_power_async_loop flt loops st rest
               | Some (base_freq, interval, measurements) \<Rightarrow>
                   (case rtl_bins_async flt loops base_freq interval pt st
                           (enumerate 0 measurements) of
                      Finished st' \<Rightarrow> rtl_power_async_loop flt loops st' rest
                    | Failed e \<Rightarrow> (Inl e, sigints st)
                    | Interrupted st' \<Rightarrow> (Inr (frequencies st'), sigints (send_signal st')))))"

definition get_antenna_statistics_rtl_power_async ::
  "(string \<Rightarrow> real option) \<Rightarrow> int \<Rightarrow> async_event list \<Rightarrow> (py_error + freq_map) \<times> nat" where
  "get_antenna_statistics_rtl_power_async flt loops evs =
     rtl_power_async_loop flt loops initial_state evs"

text \<open>The events of the first model are those of the second with the interrupt in \<^verbatim>\<open>readline\<close>.\<close>

fun async_of :: "event \<Rightarrow> async_event" where
  "async_of (Line raw) = Read raw"
| "async_of Interrupt = Interrupted_read"

text \<open>An event other than an interrupt between \<^verbatim>\<open>setdefault\<close> and \<^verbatim>\<open>append\<close>.\<close>

fun no_interrupt_in_record :: "async_event \<Rightarrow> bool" where
  "no_interrupt_in_record (Interrupted_at raw (In_record idx)) = False"
| "no_interrupt_in_record e = True"

section \<open>The deriver: \<^verbatim>\<open>get_frequency_swr_pairs\<close>\<close>

text \<open>\<^verbatim>\<open>sum(xs) / float(len(xs))\<close>\<close>

definition mean :: "real list \<Rightarrow> py_error + real" where
  "mean xs = (if length xs = 0 then Inl ZeroDivisionError
              else Inr (sum_list xs / real (length xs)))"

text \<open>Line 187.\<close>

definition swr_of_loss :: "real \<Rightarrow> py_error + real" where
  "swr_of_loss loss =
     (if 10 powr (loss / 20) - 1 = 0 then Inl ZeroDivisionError
      else Inr ((10 powr (loss / 20) + 1) / (10 powr (loss / 20) - 1)))"

text \<open>
  Lines 179-189, the loop over the sorted keys. The keys of \<^verbatim>\<open>baseline\<close> are of any ordered
  type \<open>'k\<close>; \<open>flt\<close> is \<^verbatim>\<open>float\<close> on that type (\<open>Some\<close> when the keys are floats already).
\<close>

fun swr_pairs_loop ::
  "('k \<Rightarrow> real option) \<Rightarrow> ('k, real list) fmap \<Rightarrow> freq_map \<Rightarrow> 'k list \<Rightarrow> ('k \<times> real) list
     \<Rightarrow> py_error + ('k \<times> real) list" where
  "swr_pairs_loop flt baseline measurements [] data_pairs = Inr data_pairs"
| "swr_pairs_loop flt baseline measurements (frequency # rest) data_pairs =
     (case fmlookup baseline frequency of
        None \<Rightarrow> Inl KeyError
      | Some pre \<Rightarrow>
          (case flt frequency of
             None \<Rightarrow> Inl ValueError
           | Some fk \<Rightarrow>
               (case fmlookup measurements fk of
                  None \<Rightarrow> Inl KeyError
                | Some post \<Rightarrow>
                    (case mean pre of
                       Inl e \<Rightarrow> Inl e
                     | Inr pre_value \<Rightarrow>
                         (case mean post of
                            Inl e \<Rightarrow> Inl e
                          | Inr post_value \<Rightarrow>
                              (case swr_of_loss (max (pre_value - post_value) 0.001) of
                                 Inl e \<Rightarrow> Inl e
                               | Inr swr \<Rightarrow>
                                   swr_pairs_loop flt baseline measurements rest
                                     (data_pairs @ [(frequency, swr)])))))))"

definition get_frequency_swr_pairs ::
  "('k::linorder \<Rightarrow> real option) \<Rightarrow> ('k, real list) fmap \<Rightarrow> freq_map
     \<Rightarrow> py_error + ('k \<times> real) list" where
  "get_frequency_swr_pairs flt baseline measurements =
     swr_pairs_loop flt baseline measurements (sorted_list_of_fset (fmdom baseline)) []"

section \<open>Invariant of a map of readings\<close>

text \<open>Every key has at least one reading.\<close>

definition nonempty_readings :: "('k, real list) fmap \<Rightarrow> bool" where
  "nonempty_readings m \<longleftrightarrow> (\<forall>k xs. fmlookup m k = Some xs \<longrightarrow> xs \<noteq> [])"

section \<open>Concrete inputs\<close>

text \<open>
  Seven lines of Format A whose \<^verbatim>\<open>center_freq\<close> and \<^verbatim>\<open>freq\<close> fields are both
  10, 20, 30, 5, 15, 25, 40.
\<close>

definition sweep_example :: "event list" where
  "sweep_example =
     [Line ''2015-08-17 20:32:17.1 center_freq 10 freq 10 power_db -1 noise_floor_db -75'',
      Line ''2015-08-17 20:32:17.2 center_freq 20 freq 20 power_db -2 noise_floor_db -75'',
      Line ''2015-08-17 20:32:17.3 center_freq 30 freq 30 power_db -3 noise_floor_db -75'',
      Line ''2015-08-17 20:32:17.4 center_freq 5 freq 5 power_db -4 noise_floor_db -75'',
      Line ''2015-08-17 20:32:17.5 center_freq 15 freq 15 power_db -5 noise_floor_db -75'',
      Line ''2015-08-17 20:32:17.6 center_freq 25 freq 25 power_db -6 noise_floor_db -75'',
      Line ''2015-08-17 20:32:17.7 center_freq 40 freq 40 power_db -7 noise_floor_db -75'']"

text \<open>Three lines of Format A with one centre frequency and the frequencies 95, 105, 95.\<close>

definition center_example :: "event list" where
  "center_example =
     [Line ''2015-08-17 20:32:17.1 center_freq 100 freq 95 power_db -1 noise_floor_db -75'',
      Line ''2015-08-17 20:32:17.2 center_freq 100 freq 105 power_db -2 noise_floor_db -75'',
      Line ''2015-08-17 20:32:17.3 center_freq 100 freq 95 power_db -3 noise_floor_db -75'']"

text \<open>The line of Format B that the specification gives as an example.\<close>

definition rtl_power_example :: string where
  "rtl_power_example =
     ''2015-08-17, 20:32:17, 750000000, 950000000, 100000, -70.1, -68.3, -65.0''"

section \<open>The loops, unfolded\<close>

text \<open>
  At the end of the stream \<^verbatim>\<open>readline\<close> returns the empty string. In the Format A loop its
  split has one field, the tuple assignment fails and \<^verbatim>\<open>continue\<close> starts the loop again with
  nothing changed: a call that returns has read at least one event.
\<close>

lemma osmocom_loop_Some_nonempty:
  assumes "osmocom_loop flt loops st evs = Some y"
  shows "evs \<noteq> []"
  using assms
proof (induction flt loops st evs y rule: osmocom_loop.raw_induct)
  case (1 f flt loops st evs y)
  show ?case
  proof
    assume "evs = []"
    with 1(2) have "f flt loops st [] = Some y"
      by (simp add: osmocom_body_def unpack_fields_def strip_def)
    from 1(1)[OF this] 1(3) \<open>evs = []\<close> show False by simp
  qed
qed (rule assms)

lemma osmocom_loop_Nil: "osmocom_loop flt loops st [] = None"
  using osmocom_loop_Some_nonempty[of flt loops st "[]"]
  by (cases "osmocom_loop flt loops st []") auto

lemma osmocom_loop_Interrupt:
  "osmocom_loop flt loops st (Interrupt # rest) = Some (Inl KeyboardInterrupt, Suc (sigints st))"
  by (subst osmocom_loop.simps) (simp add: send_signal_def)

lemma osmocom_loop_Line:
  "osmocom_loop flt loops st (Line raw # rest) =
     (case osmocom_body flt loops st raw of
        Continue st' \<Rightarrow> osmocom_loop flt loops st' rest
      | Break st' \<Rightarrow> Some (Inr (frequencies st'), sigints st')
      | Raise e n \<Rightarrow> Some (Inl e, n))"
  by (subst osmocom_loop.simps) simp

lemma rtl_power_loop_Nil:
  "rtl_power_loop flt loops st [] = Some (Inr (frequencies st), sigints st)"
  by (subst rtl_power_loop.simps) (simp add: rtl_power_body_def strip_def)

lemma rtl_power_loop_Interrupt:
  "rtl_power_loop flt loops st (Interrupt # rest) = Some (Inr (frequencies st), Suc (sigints st))"
  by (subst rtl_power_loop.simps) (simp add: send_signal_def)

lemma rtl_power_loop_Line:
  "rtl_power_loop flt loops st (Line raw # rest) =
     (case rtl_power_body flt loops st raw of
        Continue st' \<Rightarrow> rtl_power_loop flt loops st' rest
      | Break st' \<Rightarrow> Some (Inr (frequencies st'), sigints st')
      | Raise e n \<Rightarrow> Some (Inl e, n))"
  by (subst rtl_power_loop.simps) simp

section \<open>The state of a scan\<close>

lemma track_frequency_simps [simp]:
  "frequencies (track_frequency f st) = frequencies st"
  "sigints (track_frequency f st) = sigints st"
  "loop_cursor (track_frequency f st) =
     (if f \<le> max_encountered_frequency st then loop_cursor st + 1 else loop_cursor st)"
  "max_encountered_frequency (track_frequency f st) = max (max_encountered_frequency st) f"
  by (simp_all add: track_frequency_def)

lemma record_power_simps [simp]:
  "frequencies (record_power k p st) = setdefault_append k p (frequencies st)"
  "sigints (record_power k p st) = sigints st"
  "loop_cursor (record_power k p st) = loop_cursor st"
  "max_encountered_frequency (record_power k p st) = max_encountered_frequency st"
  by (simp_all add: record_power_def)

lemma send_signal_simps [simp]:
  "frequencies (send_signal st) = frequencies st"
  "sigints (send_signal st) = Suc (sigints st)"
  "loop_cursor (send_signal st) = loop_cursor st"
  "max_encountered_frequency (send_signal st) = max_encountered_frequency st"
  by (simp_all add: send_signal_def)

lemma nonempty_setdefault_append:
  "nonempty_readings m \<Longrightarrow> nonempty_readings (setdefault_append k p m)"
  by (auto simp: nonempty_readings_def setdefault_append_def split: option.splits if_splits)

lemma nonempty_fmempty: "nonempty_readings fmempty"
  by (simp add: nonempty_readings_def)

lemma osmocom_body_nonempty:
  assumes "nonempty_readings (frequencies st)"
    and "osmocom_body flt loops st raw = Continue st' \<or> osmocom_body flt loops st raw = Break st'"
  shows "nonempty_readings (frequencies st')"
  using assms
  by (auto simp: osmocom_body_def Let_def nonempty_setdefault_append
      split: option.splits if_splits prod.splits)

lemma osmocom_loop_nonempty:
  assumes "osmocom_loop flt loops st evs = Some (Inr m, n)"
    and "nonempty_readings (frequencies st)"
  shows "nonempty_readings m"
  using assms
proof (induction evs arbitrary: st)
  case Nil
  then show ?case by (simp add: osmocom_loop_Nil)
next
  case (Cons e evs)
  show ?case
  proof (cases e)
    case Interrupt
    with Cons.prems show ?thesis by (simp add: osmocom_loop_Interrupt)
  next
    case (Line raw)
    show ?thesis
    proof (cases "osmocom_body flt loops st raw")
      case (Continue st')
      with Cons.prems Line have "osmocom_loop flt loops st' evs = Some (Inr m, n)"
        by (simp add: osmocom_loop_Line)
      moreover have "nonempty_readings (frequencies st')"
        using osmocom_body_nonempty[OF Cons.prems(2)] Continue by blast
      ultimately show ?thesis by (rule Cons.IH)
    next
      case (Break st')
      with Cons.prems Line have "m = frequencies st'" by (simp add: osmocom_loop_Line)
      with osmocom_body_nonempty[OF Cons.prems(2)] Break show ?thesis by blast
    next
      case (Raise e k)
      with Cons.prems Line show ?thesis by (simp add: osmocom_loop_Line)
    qed
  qed
qed

lemma rtl_bins_nonempty:
  assumes "rtl_bins flt loops base_freq interval st bins = Inr st'"
    and "nonempty_readings (frequencies st)"
  shows "nonempty_readings (frequencies st')"
  using assms
proof (induction bins arbitrary: st)
  case Nil
  then show ?case by simp
next
  case (Cons b bins)
  obtain idx pwr where b: "b = (idx, pwr)" by (cases b)
  show ?case
  proof (cases "loops \<le> loop_cursor (track_frequency (base_freq + real idx * interval) st)")
    case True
    with Cons.prems b show ?thesis by (auto simp: Let_def)
  next
    case False
    with Cons.prems(1) b obtain p where
      p: "flt pwr = Some p"
      and rec: "rtl_bins flt loops base_freq interval
              (record_power (base_freq + real idx * interval) p
                 (track_frequency (base_freq + real idx * interval) st)) bins = Inr st'"
      by (auto simp: Let_def split: option.splits)
    show ?thesis
      by (rule Cons.IH[OF rec]) (simp add: nonempty_setdefault_append Cons.prems(2))
  qed
qed

lemma rtl_bins_Inl:
  "rtl_bins flt loops base_freq interval st bins = Inl e \<Longrightarrow> e = ValueError"
proof (induction bins arbitrary: st)
  case Nil
  then show ?case by simp
next
  case (Cons b bins)
  then show ?case
    by (cases b) (auto simp: Let_def split: option.splits if_splits)
qed

lemma rtl_power_body_nonempty:
  assumes "nonempty_readings (frequencies st)"
    and "rtl_power_body flt loops st raw = Continue st' \<or> rtl_power_body flt loops st raw = Break st'"
  shows "nonempty_readings (frequencies st')"
  using assms
  by (auto simp: rtl_power_body_def Let_def split: option.splits if_splits prod.splits sum.splits
      dest: rtl_bins_nonempty)

lemma rtl_power_body_Raise:
  "rtl_power_body flt loops st raw = Raise e n \<Longrightarrow> e = ValueError"
  by (auto simp: rtl_power_body_def Let_def split: option.splits if_splits prod.splits sum.splits
      dest: rtl_bins_Inl)

lemma rtl_power_loop_nonempty:
  assumes "rtl_power_loop flt loops st evs = Some (Inr m, n)"
    and "nonempty_readings (frequencies st)"
  shows "nonempty_readings m"
  using assms
proof (induction evs arbitrary: st)
  case Nil
  then show ?case by (simp add: rtl_power_loop_Nil)
next
  case (Cons e evs)
  show ?case
  proof (cases e)
    case Interrupt
    with Cons.prems show ?thesis by (simp add: rtl_power_loop_Interrupt)
  next
    case (Line raw)
    show ?thesis
    proof (cases "rtl_power_body flt loops st raw")
      case (Continue st')
      with Cons.prems Line have "rtl_power_loop flt loops st' evs = Some (Inr m, n)"
        by (simp add: rtl_power_loop_Line)
      moreover have "nonempty_readings (frequencies st')"
        using rtl_power_body_nonempty[OF Cons.prems(2)] Continue by blast
      ultimately show ?thesis by (rule Cons.IH)
    next
      case (Break st')
      with Cons.prems Line have "m = frequencies st'" by (simp add: rtl_power_loop_Line)
      with rtl_power_body_nonempty[OF Cons.prems(2)] Break show ?thesis by blast
    next
      case (Raise e k)
      with Cons.prems Line show ?thesis by (simp add: rtl_power_loop_Line)
    qed
  qed
qed

lemma rtl_power_loop_returns:
  "\<exists>m n. rtl_power_loop flt loops st evs = Some (Inr m, n) \<or>
         rtl_power_loop flt loops st evs = Some (Inl ValueError, n)"
proof (induction evs arbitrary: st)
  case Nil
  then show ?case by (simp add: rtl_power_loop_Nil)
next
  case (Cons e evs)
  show ?case
  proof (cases e)
    case Interrupt
    then show ?thesis by (simp add: rtl_power_loop_Interrupt)
  next
    case (Line raw)
    show ?thesis
    proof (cases "rtl_power_body flt loops st raw")
      case (Continue st')
      with Line Cons.IH[of st'] show ?thesis by (simp add: rtl_power_loop_Line)
    next
      case (Break st')
      with Line show ?thesis by (simp add: rtl_power_loop_Line)
    next
      case (Raise e k)
      with Line rtl_power_body_Raise[OF Raise] show ?thesis by (simp add: rtl_power_loop_Line)
    qed
  qed
qed

lemma osmocom_body_sigints:
  "osmocom_body flt loops st raw = Continue st' \<Longrightarrow> sigints st' = sigints st"
  "osmocom_body flt loops st raw = Break st' \<Longrightarrow> sigints st' = Suc (sigints st)"
  by (auto simp: osmocom_body_def Let_def split: option.splits if_splits prod.splits)

lemma osmocom_loop_returns_after_signal:
  assumes "osmocom_loop flt loops st evs = Some (Inr m, n)"
  shows "n = Suc (sigints st)"
  using assms
proof (induction evs arbitrary: st)
  case Nil
  then show ?case by (simp add: osmocom_loop_Nil)
next
  case (Cons e evs)
  show ?case
  proof (cases e)
    case Interrupt
    with Cons.prems show ?thesis by (simp add: osmocom_loop_Interrupt)
  next
    case (Line raw)
    show ?thesis
    proof (cases "osmocom_body flt loops st raw")
      case (Continue st')
      with Cons.prems Line have "osmocom_loop flt loops st' evs = Some (Inr m, n)"
        by (simp add: osmocom_loop_Line)
      from Cons.IH[OF this] osmocom_body_sigints(1)[OF Continue] show ?thesis by simp
    next
      case (Break st')
      with Cons.prems Line have "n = sigints st'" by (simp add: osmocom_loop_Line)
      with osmocom_body_sigints(2)[OF Break] show ?thesis by simp
    next
      case (Raise e k)
      with Cons.prems Line show ?thesis by (simp add: osmocom_loop_Line)
    qed
  qed
qed

section \<open>The deriver\<close>

lemma ratio_gt_one: "0 < loss \<Longrightarrow> 1 < (10::real) powr (loss / 20)"
  by (rule gr_one_powr) simp_all

lemma ratio_mono: "a < b \<Longrightarrow> (10::real) powr (a / 20) < 10 powr (b / 20)"
  by (rule powr_less_mono) simp_all

lemma swr_of_loss_Inr:
  "0 < loss \<Longrightarrow>
     swr_of_loss loss = Inr ((10 powr (loss / 20) + 1) / (10 powr (loss / 20) - 1))"
  using ratio_gt_one[of loss] by (simp add: swr_of_loss_def)

lemma quotient_gt_one: "1 < (r::real) \<Longrightarrow> 1 < (r + 1) / (r - 1)"
  by (simp add: field_simps)

lemma quotient_antimono:
  "1 < (r::real) \<Longrightarrow> r < s \<Longrightarrow> (s + 1) / (s - 1) < (r + 1) / (r - 1)"
  by (simp add: field_simps)

lemma mean_Inr: "xs \<noteq> [] \<Longrightarrow> mean xs = Inr (sum_list xs / real (length xs))"
  by (simp add: mean_def)

lemma sorted_list_of_fset_eq: "sorted_list_of_fset S = sorted_list_of_set (fset S)"
  by (simp add: sorted_list_of_fset.rep_eq)

lemma swr_of_loss_ge_one:
  assumes "swr_of_loss (max d 0.001) = Inr s"
  shows "1 \<le> s"
proof -
  have pos: "0 < max d (0.001::real)" by simp
  have "s = (10 powr (max d 0.001 / 20) + 1) / (10 powr (max d 0.001 / 20) - 1)"
    using assms swr_of_loss_Inr[OF pos] by simp
  with quotient_gt_one[OF ratio_gt_one[OF pos]] show ?thesis by simp
qed

lemma swr_pairs_loop_ge_one:
  assumes "swr_pairs_loop flt baseline measurements ks acc = Inr pairs"
    and "\<forall>(f, s) \<in> set acc. 1 \<le> s"
  shows "\<forall>(f, s) \<in> set pairs. 1 \<le> s"
  using assms
proof (induction ks arbitrary: acc)
  case Nil
  then show ?case by simp
next
  case (Cons k ks)
  from Cons.prems(1) obtain pre_value post_value s where
      s: "swr_of_loss (max (pre_value - post_value) 0.001) = Inr s"
    and rec: "swr_pairs_loop flt baseline measurements ks (acc @ [(k, s)]) = Inr pairs"
    by (auto split: option.splits sum.splits)
  have "\<forall>(f, s) \<in> set (acc @ [(k, s)]). 1 \<le> s"
    using Cons.prems(2) swr_of_loss_ge_one[OF s] by auto
  from Cons.IH[OF rec this] show ?case .
qed


lemma swr_of_loss_floor:
  "0 < c \<Longrightarrow>
     swr_of_loss (max d c) = Inr ((10 powr (max d c / 20) + 1) / (10 powr (max d c / 20) - 1))"
  by (rule swr_of_loss_Inr) simp

lemma swr_pairs_loop_correct:
  assumes "\<forall>k \<in> set ks. \<exists>pre post. fmlookup baseline k = Some pre \<and> pre \<noteq> [] \<and>
             fmlookup measurements k = Some post \<and> post \<noteq> []"
  shows "swr_pairs_loop Some baseline measurements ks acc =
           Inr (acc @ map (\<lambda>f.
             let pre = the (fmlookup baseline f); post = the (fmlookup measurements f);
                 loss = max (sum_list pre / real (length pre) - sum_list post / real (length post)) 0.001
             in (f, (10 powr (loss / 20) + 1) / (10 powr (loss / 20) - 1))) ks)"
  using assms
proof (induction ks arbitrary: acc)
  case Nil
  then show ?case by simp
next
  case (Cons k ks)
  from Cons.prems obtain pre post where
    kv: "fmlookup baseline k = Some pre" "pre \<noteq> []" "fmlookup measurements k = Some post" "post \<noteq> []"
    by auto
  have pos: "0 < max (sum_list pre / real (length pre) - sum_list post / real (length post)) (0.001::real)"
    by simp
  from Cons.prems have rest: "\<forall>k \<in> set ks. \<exists>pre post. fmlookup baseline k = Some pre \<and> pre \<noteq> [] \<and>
             fmlookup measurements k = Some post \<and> post \<noteq> []" by simp
  show ?case
    using kv by (simp add: mean_Inr swr_of_loss_floor Cons.IH[OF rest] Let_def)
qed

lemma swr_pairs_loop_missing:
  assumes "k \<in> set ks" and "fmlookup measurements k = None"
  shows "swr_pairs_loop Some baseline measurements ks acc \<noteq> Inr pairs"
  using assms(1)
proof (induction ks arbitrary: acc)
  case Nil
  then show ?case by simp
next
  case (Cons a ks)
  show ?case
  proof (cases "a = k")
    case True
    with assms(2) show ?thesis by (simp split: option.splits)
  next
    case False
    with Cons.prems have "k \<in> set ks" by simp
    from Cons.IH[OF this] show ?thesis by (simp split: option.splits sum.splits)
  qed
qed

lemma swr_pairs_loop_KeyError:
  assumes "k \<in> set ks" and "fmlookup measurements k = None"
    and "\<forall>k \<in> set ks. \<exists>pre. fmlookup baseline k = Some pre \<and> pre \<noteq> []"
    and "\<forall>k post. fmlookup measurements k = Some post \<longrightarrow> post \<noteq> []"
  shows "swr_pairs_loop Some baseline measurements ks acc = Inl KeyError"
  using assms(1,3)
proof (induction ks arbitrary: acc)
  case Nil
  then show ?case by simp
next
  case (Cons a ks)
  from Cons.prems(2) obtain pre where pre: "fmlookup baseline a = Some pre" "pre \<noteq> []" by auto
  show ?case
  proof (cases "fmlookup measurements a")
    case None
    with pre show ?thesis by simp
  next
    case (Some post)
    with assms(4) have post: "post \<noteq> []" by blast
    from Some assms(2) have "a \<noteq> k" by auto
    with Cons.prems have "k \<in> set ks" "\<forall>k \<in> set ks. \<exists>pre. fmlookup baseline k = Some pre \<and> pre \<noteq> []"
      by simp_all
    note IH = Cons.IH[OF this]
    have pos: "0 < max (sum_list pre / real (length pre) - sum_list post / real (length post)) (0.001::real)"
      by simp
    show ?thesis
      using pre Some post by (simp add: mean_Inr swr_of_loss_floor IH)
  qed
qed


lemma swr_pairs_loop_no_zero_division:
  assumes "nonempty_readings baseline" and "nonempty_readings measurements"
  shows "swr_pairs_loop flt baseline measurements ks acc \<noteq> Inl ZeroDivisionError"
proof (induction ks arbitrary: acc)
  case Nil
  then show ?case by simp
next
  case (Cons k ks)
  show ?case
  proof (cases "fmlookup baseline k")
    case None
    then show ?thesis by simp
  next
    case pre: (Some pre)
    with assms(1) have pre_ne: "pre \<noteq> []" by (auto simp: nonempty_readings_def)
    show ?thesis
    proof (cases "flt k")
      case None
      with pre show ?thesis by simp
    next
      case fk: (Some fk)
      show ?thesis
      proof (cases "fmlookup measurements fk")
        case None
        with pre fk show ?thesis by simp
      next
        case post: (Some post)
        with assms(2) have post_ne: "post \<noteq> []" by (auto simp: nonempty_readings_def)
        from pre fk post pre_ne post_ne Cons.IH show ?thesis
          by (simp add: mean_Inr swr_of_loss_floor)
      qed
    qed
  qed
qed

section \<open>Decoding and recording\<close>

lemmas eval_defs = strip_def is_space_def unpack_fields_def decimal_float_def unsigned_decimal_def
  is_digit_def osmocom_body_def track_frequency_def record_power_def send_signal_def
  setdefault_append_def initial_state_def rtl_power_body_def rtl_decode_def Let_def

lemma osmocom_body_parsed:
  assumes "unpack_fields (strip raw) = Some (center_freq, freq, power_db)"
    and "flt freq = Some f" and "flt center_freq = Some c" and "flt power_db = Some p"
  shows "osmocom_body flt loops st raw =
           (if loops \<le> loop_cursor (track_frequency f st)
            then Break (send_signal (track_frequency f st))
            else Continue (record_power c p (track_frequency f st)))"
  using assms by (simp add: osmocom_body_def Let_def)




section \<open>The interrupt inside an iteration\<close>

lemma setdefault_then_append:
  "(case setdefault k m of (m', ps) \<Rightarrow> list_append k ps p m') = setdefault_append k p m"
  by (simp add: setdefault_def list_append_def setdefault_append_def split: option.splits)

lemma rtl_power_async_refines:
  "rtl_power_loop flt loops st evs = Some (rtl_power_async_loop flt loops st (map async_of evs))"
proof (induction evs arbitrary: st)
  case Nil
  then show ?case by (simp add: rtl_power_loop_Nil)
next
  case (Cons e evs)
  then show ?case
    by (cases e) (simp_all add: rtl_power_loop_Line rtl_power_loop_Interrupt split: step.splits)
qed

lemma nonempty_list_append:
  "nonempty_readings m \<Longrightarrow> nonempty_readings (list_append k ps p m)"
  by (auto simp: nonempty_readings_def list_append_def split: if_splits)

lemma nonempty_setdefault_list_append:
  "nonempty_readings m \<Longrightarrow> setdefault k m = (m', ps) \<Longrightarrow> nonempty_readings (list_append k ps p m')"
  unfolding nonempty_readings_def list_append_def setdefault_def
  by (cases "fmlookup m k") (force split: if_splits)+

lemma rtl_bins_async_nonempty:
  assumes "nonempty_readings (frequencies st)" and "\<forall>idx. pt \<noteq> In_record idx"
    and "rtl_bins_async flt loops base_freq interval pt st bins = Finished st' \<or>
         rtl_bins_async flt loops base_freq interval pt st bins = Interrupted st'"
  shows "nonempty_readings (frequencies st')"
  using assms(1,3)
proof (induction bins arbitrary: st)
  case Nil
  then show ?case by simp
next
  case (Cons b bins)
  obtain idx pwr where b: "b = (idx, pwr)" by (cases b)
  let ?f = "base_freq + real idx * interval"
  let ?st1 = "track_frequency ?f st"
  obtain m ps where sd: "setdefault ?f (frequencies ?st1) = (m, ps)" by (cases "setdefault ?f (frequencies ?st1)")
  show ?case
  proof (cases "pt = At_bin idx \<or> loops \<le> loop_cursor ?st1")
    case True
    with Cons.prems b show ?thesis by (auto simp: Let_def split: if_splits)
  next
    case False
    with Cons.prems(2) b sd assms(2) obtain p where p: "flt pwr = Some p"
      and rec: "rtl_bins_async flt loops base_freq interval pt
                  (?st1\<lparr>frequencies := list_append ?f ps p m\<rparr>) bins = Finished st' \<or>
                rtl_bins_async flt loops base_freq interval pt
                  (?st1\<lparr>frequencies := list_append ?f ps p m\<rparr>) bins = Interrupted st'"
      by (auto simp: Let_def split: option.splits if_splits)
    have "nonempty_readings (frequencies (?st1\<lparr>frequencies := list_append ?f ps p m\<rparr>))"
      using nonempty_setdefault_list_append[OF _ sd] Cons.prems(1) by simp
    from Cons.IH[OF this rec] show ?thesis .
  qed
qed

lemma rtl_power_async_nonempty:
  assumes "list_all no_interrupt_in_record evs" and "nonempty_readings (frequencies st)"
    and "rtl_power_async_loop flt loops st evs = (Inr m, n)"
  shows "nonempty_readings m"
  using assms
proof (induction flt loops st evs rule: rtl_power_async_loop.induct)
  case (1 flt loops st)
  then show ?case by simp
next
  case (2 flt loops st rest)
  then show ?case by simp
next
  case (3 flt loops st raw rest)
  show ?case
  proof (cases "rtl_power_body flt loops st raw")
    case (Continue st')
    with 3 rtl_power_body_nonempty[of st flt loops raw st'] show ?thesis by simp
  next
    case (Break st')
    with 3 rtl_power_body_nonempty[of st flt loops raw st'] show ?thesis by simp
  next
    case (Raise e k)
    with 3 show ?thesis by simp
  qed
next
  case (4 flt loops st raw pt rest)
  from "4.prems"(1) have pt: "\<forall>idx. pt \<noteq> In_record idx" and rest: "list_all no_interrupt_in_record rest"
    by (cases pt; simp)+
  show ?case
  proof (cases "strip raw = []")
    case True
    with 4 show ?thesis by simp
  next
    case ne: False
    show ?thesis
    proof (cases "pt = In_try")
      case True
      with 4 ne rest show ?thesis by simp
    next
      case nt: False
      show ?thesis
      proof (cases "rtl_decode flt (strip raw)")
        case None
        with 4 ne nt rest show ?thesis by simp
      next
        case (Some d)
        obtain b i ms where d: "d = (b, i, ms)" by (cases d)
        show ?thesis
        proof (cases "rtl_bins_async flt loops b i pt st (enumerate 0 ms)")
          case (Finished st')
          with rtl_bins_async_nonempty[OF "4.prems"(2) pt, of flt loops b i "enumerate 0 ms" st']
          have "nonempty_readings (frequencies st')" by simp
          with 4 ne nt Some d Finished rest show ?thesis by simp
        next
          case (Failed e)
          with 4 ne nt Some d show ?thesis by simp
        next
          case (Interrupted st')
          with rtl_bins_async_nonempty[OF "4.prems"(2) pt, of flt loops b i "enumerate 0 ms" st']
          have "nonempty_readings (frequencies st')" by simp
          with 4 ne nt Some d Interrupted show ?thesis by simp
        qed
      qed
    qed
  qed
qed

lemmas eval_async = setdefault_def list_append_def get_antenna_statistics_rtl_power_async_def

section \<open>The scans on the concrete inputs\<close>

lemma sweep_example_result:
  "get_antenna_statistics_osmocom decimal_float 1 (take 4 sweep_example @ rest) =
     Some (Inr (fmupd 30 [-3] (fmupd 20 [-2] (fmupd 10 [-1] fmempty))), 1)"
  by (simp add: sweep_example_def get_antenna_statistics_osmocom_def osmocom_loop_Line eval_defs)

lemma sweep_example_prefix:
  "get_antenna_statistics_osmocom decimal_float 1 (take 3 sweep_example) = None"
  by (simp add: sweep_example_def get_antenna_statistics_osmocom_def osmocom_loop_Line
      osmocom_loop_Nil eval_defs)

lemma sweep_example_whole:
  "get_antenna_statistics_osmocom decimal_float 1 sweep_example =
     Some (Inr (fmupd 30 [-3] (fmupd 20 [-2] (fmupd 10 [-1] fmempty))), 1)"
  by (simp add: sweep_example_def get_antenna_statistics_osmocom_def osmocom_loop_Line eval_defs)

lemma center_example_scan:
  "get_antenna_statistics_osmocom decimal_float 1 center_example =
     Some (Inr (fmupd 100 [-1, -2] fmempty), 1)"
  by (simp add: center_example_def get_antenna_statistics_osmocom_def osmocom_loop_Line eval_defs)

lemma rtl_power_example_scan:
  "get_antenna_statistics_rtl_power decimal_float 1 [Line rtl_power_example] =
     Some (Inr (fmupd 750100000 [-65] (fmupd 750000000 [-68.3] fmempty)), 0)"
  by (simp add: rtl_power_example_def get_antenna_statistics_rtl_power_def rtl_power_loop_Line
      rtl_power_loop_Nil eval_defs)



lemma swr_pairs_example:
  "get_frequency_swr_pairs Some (fmupd 1000 [-70, -70] fmempty) (fmupd 1000 [-80, -80] fmempty)
     = Inr [(1000, (10 powr (1 / 2) + 1) / (10 powr (1 / 2) - 1))]"
  by (simp add: get_frequency_swr_pairs_def sorted_list_of_fset_eq mean_def swr_of_loss_Inr)

lemma sorted_keys_example: "sorted_list_of_set {2000, 1000::real} = [1000, 2000]"
  by simp

section \<open>C1: the pairs returned by the deriver\<close>

text \<open>
  C1. When every key of the baseline is a key of the measurement map and every list of
  readings in both maps is non-empty, \<open>get_frequency_swr_pairs\<close> on float keys returns a list
  with exactly one pair for each baseline key, in strictly ascending order of the
  frequency, and the SWR of each pair is \<open>(10 powr (loss / 20) + 1) / (10 powr (loss / 20) - 1)\<close>
  for the loss \<open>max (mean of the baseline readings - mean of the measured readings) 0.001\<close>,
  the means being arithmetic means.
\<close>

theorem get_frequency_swr_pairs_correct:
  assumes "fmdom baseline |\<subseteq>| fmdom measurements"
    and "\<forall>k pre. fmlookup baseline k = Some pre \<longrightarrow> pre \<noteq> []"
    and "\<forall>k post. fmlookup measurements k = Some post \<longrightarrow> post \<noteq> []"
  shows "\<exists>pairs. get_frequency_swr_pairs Some baseline measurements = Inr pairs \<and>
           pairs = map (\<lambda>f.
             let pre = the (fmlookup baseline f); post = the (fmlookup measurements f);
                 loss = max (sum_list pre / real (length pre) - sum_list post / real (length post)) 0.001
             in (f, (10 powr (loss / 20) + 1) / (10 powr (loss / 20) - 1)))
               (sorted_list_of_set (fmdom' baseline)) \<and>
           map fst pairs = sorted_list_of_set (fmdom' baseline) \<and>
           sorted_wrt (<) (map fst pairs) \<and> set (map fst pairs) = fmdom' baseline"
proof -
  have "\<forall>k \<in> set (sorted_list_of_fset (fmdom baseline)).
          \<exists>pre post. fmlookup baseline k = Some pre \<and> pre \<noteq> [] \<and>
             fmlookup measurements k = Some post \<and> post \<noteq> []"
  proof
    fix k assume "k \<in> set (sorted_list_of_fset (fmdom baseline))"
    then have kb: "k |\<in>| fmdom baseline" by simp
    with assms(1) have km: "k |\<in>| fmdom measurements" by auto
    from kb obtain pre where pre: "fmlookup baseline k = Some pre" by (auto simp: fmlookup_dom_iff)
    from km obtain post where post: "fmlookup measurements k = Some post" by (auto simp: fmlookup_dom_iff)
    from pre post assms(2,3) show "\<exists>pre post. fmlookup baseline k = Some pre \<and> pre \<noteq> [] \<and>
             fmlookup measurements k = Some post \<and> post \<noteq> []" by blast
  qed
  from swr_pairs_loop_correct[OF this, of "[]"]
  have eq: "get_frequency_swr_pairs Some baseline measurements =
      Inr (map (\<lambda>f.
             let pre = the (fmlookup baseline f); post = the (fmlookup measurements f);
                 loss = max (sum_list pre / real (length pre) - sum_list post / real (length post)) 0.001
             in (f, (10 powr (loss / 20) + 1) / (10 powr (loss / 20) - 1)))
               (sorted_list_of_set (fmdom' baseline)))"
    by (simp add: get_frequency_swr_pairs_def sorted_list_of_fset_eq fmdom'_alt_def)
  have fin: "finite (fmdom' baseline)" by (simp add: fmdom'_alt_def)
  have keys: "map fst (map (\<lambda>f.
             let pre = the (fmlookup baseline f); post = the (fmlookup measurements f);
                 loss = max (sum_list pre / real (length pre) - sum_list post / real (length post)) 0.001
             in (f, (10 powr (loss / 20) + 1) / (10 powr (loss / 20) - 1)))
               (sorted_list_of_set (fmdom' baseline))) = sorted_list_of_set (fmdom' baseline)"
    by (simp add: comp_def Let_def)
  have "sorted_wrt (<) (sorted_list_of_set (fmdom' baseline))"
    by (simp add: strict_sorted_iff)
  moreover have "set (sorted_list_of_set (fmdom' baseline)) = fmdom' baseline"
    using fin by simp
  ultimately show ?thesis
    using eq keys by (metis (no_types, lifting))
qed

text \<open>The theorem on a baseline and a measurement with the keys 1000 and 2000.\<close>

theorem get_frequency_swr_pairs_correct_witness:
  "get_frequency_swr_pairs Some
     (fmupd 2000 [-60] (fmupd 1000 [-70, -70] fmempty))
     (fmupd 1000 [-80, -80] (fmupd 2000 [-80] fmempty))
   = Inr [(1000, (10 powr (1 / 2) + 1) / (10 powr (1 / 2) - 1)), (2000, 11 / 9)]"
proof -
  have sub: "fmdom (fmupd 2000 [-60] (fmupd 1000 [-70, -70] fmempty))
               |\<subseteq>| fmdom (fmupd (1000::real) [-80, -80::real] (fmupd 2000 [-80] fmempty))"
    by auto
  have b: "\<forall>k pre. fmlookup (fmupd (2000::real) [-60] (fmupd 1000 [-70, -70::real] fmempty)) k = Some pre
             \<longrightarrow> pre \<noteq> []"
    by (auto split: if_splits)
  have m: "\<forall>k post. fmlookup (fmupd (1000::real) [-80, -80::real] (fmupd 2000 [-80] fmempty)) k = Some post
             \<longrightarrow> post \<noteq> []"
    by (auto split: if_splits)
  from get_frequency_swr_pairs_correct[OF sub b m] show ?thesis
    by (simp add: sorted_keys_example)
qed

section \<open>C2: what the sweep aggregator records\<close>

text \<open>
  C2 as stated says that every processed sample is recorded, the one that completes the loop
  count included, so that the map has an entry for 5 when the sequence
  10, 20, 30, 5, 15, 25, 40 is scanned with threshold 1. The scan returns the map of
  10, 20 and 30: the check of lines 91-96 leaves the loop before line 98 records the sample.
\<close>

theorem completing_sample_is_not_recorded:
  "get_antenna_statistics_osmocom decimal_float 1 sweep_example =
     Some (Inr (fmupd 30 [-3] (fmupd 20 [-2] (fmupd 10 [-1] fmempty))), 1) \<and>
   5 |\<notin>| fmdom (fmupd 30 [-3] (fmupd 20 [-2] (fmupd (10::real) [-1::real] fmempty)))"
  by (simp add: sweep_example_whole)

text \<open>
  C2, amended. For a line of ten fields whose \<^verbatim>\<open>freq\<close>, \<^verbatim>\<open>center_freq\<close> and
  \<^verbatim>\<open>power_db\<close> fields are numeric: a frequency at most the running maximum increments the
  loop counter and any other frequency becomes the running maximum; if the loop counter has
  then reached the threshold, the signal is sent and the scan ends with the map unchanged,
  and otherwise the reading is appended under its key. On the sequence
  10, 20, 30, 5, 15, 25, 40 with threshold 1 the scan does not complete on 10, 20, 30 and
  completes on 5, whatever follows, with the map of 10, 20 and 30.
\<close>

theorem sample_recorded_unless_completing:
  assumes "unpack_fields (strip raw) = Some (center_freq, freq, power_db)"
    and "flt freq = Some f" and "flt center_freq = Some c" and "flt power_db = Some p"
  shows "loop_cursor (track_frequency f st) =
           (if f \<le> max_encountered_frequency st then loop_cursor st + 1 else loop_cursor st) \<and>
         max_encountered_frequency (track_frequency f st) =
           (if f \<le> max_encountered_frequency st then max_encountered_frequency st else f) \<and>
         osmocom_body flt loops st raw =
           (if loops \<le> loop_cursor (track_frequency f st)
            then Break (send_signal (track_frequency f st))
            else Continue (record_power c p (track_frequency f st))) \<and>
         frequencies (send_signal (track_frequency f st)) = frequencies st \<and>
         frequencies (record_power c p (track_frequency f st)) =
           fmupd c ((case fmlookup (frequencies st) c of None \<Rightarrow> [] | Some ps \<Rightarrow> ps) @ [p])
             (frequencies st) \<and>
         get_antenna_statistics_osmocom decimal_float 1 (take 3 sweep_example) = None \<and>
         get_antenna_statistics_osmocom decimal_float 1 (take 4 sweep_example @ rest) =
           Some (Inr (fmupd 30 [-3] (fmupd 20 [-2] (fmupd 10 [-1] fmempty))), 1)"
  using osmocom_body_parsed[OF assms] sweep_example_prefix sweep_example_result
  by (auto simp: setdefault_append_def split: option.splits)

text \<open>The theorem on the second and the fourth line of the sequence, after the first.\<close>

theorem sample_recorded_unless_completing_witness:
  "osmocom_body decimal_float 1
     \<lparr>frequencies = fmupd 10 [-1] fmempty, loop_cursor = 0, max_encountered_frequency = 10,
        sigints = 0\<rparr>
     ''2015-08-17 20:32:17.4 center_freq 5 freq 5 power_db -4 noise_floor_db -75''
   = Break \<lparr>frequencies = fmupd 10 [-1] fmempty, loop_cursor = 1, max_encountered_frequency = 10,
        sigints = 1\<rparr> \<and>
   osmocom_body decimal_float 1
     \<lparr>frequencies = fmupd 10 [-1] fmempty, loop_cursor = 0, max_encountered_frequency = 10,
        sigints = 0\<rparr>
     ''2015-08-17 20:32:17.2 center_freq 20 freq 20 power_db -2 noise_floor_db -75''
   = Continue \<lparr>frequencies = fmupd 20 [-2] (fmupd 10 [-1] fmempty), loop_cursor = 0,
        max_encountered_frequency = 20, sigints = 0\<rparr>"
proof -
  have u1: "unpack_fields (strip ''2015-08-17 20:32:17.4 center_freq 5 freq 5 power_db -4 noise_floor_db -75'')
      = Some (''5'', ''5'', ''-4'')"
    by (simp add: strip_def is_space_def unpack_fields_def)
  have u2: "unpack_fields (strip ''2015-08-17 20:32:17.2 center_freq 20 freq 20 power_db -2 noise_floor_db -75'')
      = Some (''20'', ''20'', ''-2'')"
    by (simp add: strip_def is_space_def unpack_fields_def)
  have f5: "decimal_float ''5'' = Some 5" and f4: "decimal_float ''-4'' = Some (-4)"
    and f20: "decimal_float ''20'' = Some 20" and f2: "decimal_float ''-2'' = Some (-2)"
    by (simp_all add: decimal_float_def strip_def is_space_def unsigned_decimal_def is_digit_def)
  let ?st = "\<lparr>frequencies = fmupd 10 [-1] fmempty, loop_cursor = 0,
                max_encountered_frequency = 10, sigints = 0\<rparr>"
  from sample_recorded_unless_completing[OF u1 f5 f5 f4, where st = ?st and loops = 1]
    sample_recorded_unless_completing[OF u2 f20 f20 f2, where st = ?st and loops = 1]
  show ?thesis
    by (simp add: track_frequency_def record_power_def send_signal_def setdefault_append_def)
qed

section \<open>C3: a cancellation during a scan\<close>

text \<open>
  C3. The claim holds for Format A and fails for Format B: the handler of line 170 sends
  the signal and has no \<^verbatim>\<open>raise\<close>, so \<open>get_antenna_statistics_rtl_power\<close> returns the
  map accumulated so far, and no call of it ever raises \<^verbatim>\<open>KeyboardInterrupt\<close>. Format A
  sends the signal and raises.
\<close>

theorem rtl_power_absorbs_interrupt:
  "get_antenna_statistics_rtl_power flt loops (Interrupt # rest) = Some (Inr fmempty, 1) \<and>
   get_antenna_statistics_rtl_power decimal_float 1 [Line rtl_power_example, Interrupt] =
     Some (Inr (fmupd 750100000 [-65] (fmupd 750000000 [-68.3] fmempty)), 1) \<and>
   get_antenna_statistics_rtl_power flt loops evs \<noteq> Some (Inl KeyboardInterrupt, n) \<and>
   get_antenna_statistics_osmocom flt loops (Interrupt # rest) = Some (Inl KeyboardInterrupt, 1)"
proof (intro conjI)
  show "get_antenna_statistics_rtl_power flt loops (Interrupt # rest) = Some (Inr fmempty, 1)"
    by (simp add: get_antenna_statistics_rtl_power_def rtl_power_loop_Interrupt initial_state_def)
  show "get_antenna_statistics_rtl_power decimal_float 1 [Line rtl_power_example, Interrupt] =
     Some (Inr (fmupd 750100000 [-65] (fmupd 750000000 [-68.3] fmempty)), 1)"
    by (simp add: rtl_power_example_def get_antenna_statistics_rtl_power_def rtl_power_loop_Line
        rtl_power_loop_Interrupt eval_defs)
  show "get_antenna_statistics_rtl_power flt loops evs \<noteq> Some (Inl KeyboardInterrupt, n)"
    using rtl_power_loop_returns[of flt loops initial_state evs]
    by (auto simp: get_antenna_statistics_rtl_power_def)
  show "get_antenna_statistics_osmocom flt loops (Interrupt # rest) =
          Some (Inl KeyboardInterrupt, 1)"
    by (simp add: get_antenna_statistics_osmocom_def osmocom_loop_Interrupt initial_state_def)
qed

section \<open>C4: the end of the stream\<close>

text \<open>
  C4. The claim holds for Format B and fails for Format A: at the end of the stream, or
  on a blank line, \<open>get_antenna_statistics_rtl_power\<close> returns the map accumulated so far,
  and \<open>get_antenna_statistics_osmocom\<close> never returns, neither on the empty stream nor
  after three lines of data.
\<close>

theorem osmocom_spins_at_end_of_stream:
  "get_antenna_statistics_osmocom flt loops [] = None \<and>
   get_antenna_statistics_osmocom decimal_float 5 (take 3 sweep_example) = None \<and>
   get_antenna_statistics_rtl_power flt loops [] = Some (Inr fmempty, 0) \<and>
   get_antenna_statistics_rtl_power flt loops (Line [CHR 0x0A] # rest) = Some (Inr fmempty, 0) \<and>
   get_antenna_statistics_rtl_power decimal_float 1 [Line rtl_power_example] =
     Some (Inr (fmupd 750100000 [-65] (fmupd 750000000 [-68.3] fmempty)), 0)"
proof (intro conjI)
  show "get_antenna_statistics_osmocom flt loops [] = None"
    by (simp add: get_antenna_statistics_osmocom_def osmocom_loop_Nil)
  show "get_antenna_statistics_osmocom decimal_float 5 (take 3 sweep_example) = None"
    by (simp add: sweep_example_def get_antenna_statistics_osmocom_def osmocom_loop_Line
        osmocom_loop_Nil eval_defs)
  show "get_antenna_statistics_rtl_power flt loops [] = Some (Inr fmempty, 0)"
    by (simp add: get_antenna_statistics_rtl_power_def rtl_power_loop_Nil initial_state_def)
  show "get_antenna_statistics_rtl_power flt loops (Line [CHR 0x0A] # rest) =
          Some (Inr fmempty, 0)"
    by (simp add: get_antenna_statistics_rtl_power_def rtl_power_loop_Line rtl_power_body_def
        strip_def is_space_def initial_state_def)
  show "get_antenna_statistics_rtl_power decimal_float 1 [Line rtl_power_example] =
     Some (Inr (fmupd 750100000 [-65] (fmupd 750000000 [-68.3] fmempty)), 0)"
    by (rule rtl_power_example_scan)
qed

section \<open>C5: decoding a line of Format B\<close>




section \<open>C6: lines of Format A that are not data\<close>

text \<open>
  C6. The claim holds for a line that does not have ten fields, which is skipped, and fails
  for a line of ten fields whose \<^verbatim>\<open>freq\<close> field is not numeric: \<^verbatim>\<open>float(freq)\<close> of line 86
  is outside the \<^verbatim>\<open>try\<close> of lines 71-84 and its \<^verbatim>\<open>ValueError\<close> ends the scan.
\<close>

theorem osmocom_raises_on_non_numeric_field:
  "osmocom_body decimal_float 5 initial_state ''a b c d e f g h i j'' = Raise ValueError 0 \<and>
   get_antenna_statistics_osmocom decimal_float 5
     [Line ''2015-08-17 20:32:17.4 center_freq 765000000.0 freq unknown power_db 3.5 noise_floor_db -75.9'']
     = Some (Inl ValueError, 0) \<and>
   osmocom_body decimal_float 5 initial_state ''garbage header text'' = Continue initial_state"
  by (simp add: get_antenna_statistics_osmocom_def osmocom_loop_Line eval_defs)

section \<open>C7: the fields of Format A\<close>

text \<open>
  C7 as stated says that the detection compares the centre frequency with the running
  maximum. With one centre frequency 100 and the frequencies 95, 105, 95 the second line
  would then complete a scan of threshold 1 and the map would hold one reading; the scan
  completes on the third line, with two readings under 100.
\<close>

theorem detection_compares_freq_field:
  "get_antenna_statistics_osmocom decimal_float 1 center_example =
     Some (Inr (fmupd 100 [-1, -2] fmempty), 1) \<and>
   get_antenna_statistics_osmocom decimal_float 1 center_example \<noteq>
     Some (Inr (fmupd 100 [-1] fmempty), 1)"
proof -
  have "fmlookup (fmupd (100::real) [-1, -2::real] fmempty) 100
          \<noteq> fmlookup (fmupd 100 [-1] fmempty) 100"
    by simp
  then have "fmupd (100::real) [-1, -2::real] fmempty \<noteq> fmupd 100 [-1] fmempty"
    by metis
  then show ?thesis by (simp add: center_example_scan)
qed

text \<open>
  C7, amended. For a line of ten fields whose \<^verbatim>\<open>freq\<close>, \<^verbatim>\<open>center_freq\<close> and
  \<^verbatim>\<open>power_db\<close> fields are numeric, the detection compares the \<^verbatim>\<open>freq\<close> field with the
  running maximum; and when the loop counter stays below the threshold the power is
  appended under the key \<^verbatim>\<open>center_freq\<close>, every other key keeping its readings.
\<close>

theorem freq_detects_center_freq_keys:
  assumes "unpack_fields (strip raw) = Some (center_freq, freq, power_db)"
    and "flt freq = Some f" and "flt center_freq = Some c" and "flt power_db = Some p"
  shows "\<exists>st'. (osmocom_body flt loops st raw = Continue st' \<or>
                osmocom_body flt loops st raw = Break st') \<and>
           max_encountered_frequency st' = max (max_encountered_frequency st) f \<and>
           loop_cursor st' =
             (if f \<le> max_encountered_frequency st then loop_cursor st + 1 else loop_cursor st) \<and>
           (loop_cursor st' < loops \<longrightarrow>
              osmocom_body flt loops st raw = Continue st' \<and>
              fmlookup (frequencies st') c =
                Some ((case fmlookup (frequencies st) c of None \<Rightarrow> [] | Some ps \<Rightarrow> ps) @ [p]) \<and>
              (\<forall>k. k \<noteq> c \<longrightarrow> fmlookup (frequencies st') k = fmlookup (frequencies st) k))"
proof (cases "loops \<le> loop_cursor (track_frequency f st)")
  case True
  with osmocom_body_parsed[OF assms, of loops st]
  have "osmocom_body flt loops st raw = Break (send_signal (track_frequency f st))" by simp
  with True show ?thesis
    by (intro exI[of _ "send_signal (track_frequency f st)"]) simp
next
  case False
  with osmocom_body_parsed[OF assms, of loops st]
  have "osmocom_body flt loops st raw = Continue (record_power c p (track_frequency f st))"
    by simp
  then show ?thesis
    by (intro exI[of _ "record_power c p (track_frequency f st)"])
       (simp add: setdefault_append_def split: option.splits)
qed

text \<open>The theorem on a line with the centre frequency 100 and the frequency 95.\<close>

theorem freq_detects_center_freq_keys_witness:
  "osmocom_body decimal_float 1 initial_state
     ''2015-08-17 20:32:17.1 center_freq 100 freq 95 power_db -1 noise_floor_db -75''
   = Continue \<lparr>frequencies = fmupd 100 [-1] fmempty, loop_cursor = 0,
        max_encountered_frequency = 95, sigints = 0\<rparr>"
proof -
  have u: "unpack_fields
      (strip ''2015-08-17 20:32:17.1 center_freq 100 freq 95 power_db -1 noise_floor_db -75'')
      = Some (''100'', ''95'', ''-1'')"
    by (simp add: strip_def is_space_def unpack_fields_def)
  have f95: "decimal_float ''95'' = Some 95" and f100: "decimal_float ''100'' = Some 100"
    and f1: "decimal_float ''-1'' = Some (-1)"
    by (simp_all add: decimal_float_def strip_def is_space_def unsigned_decimal_def is_digit_def)
  from freq_detects_center_freq_keys[OF u f95 f100 f1, where st = initial_state and loops = 1]
  obtain st' where st':
    "osmocom_body decimal_float 1 initial_state
       ''2015-08-17 20:32:17.1 center_freq 100 freq 95 power_db -1 noise_floor_db -75''
       = Continue st' \<or>
     osmocom_body decimal_float 1 initial_state
       ''2015-08-17 20:32:17.1 center_freq 100 freq 95 power_db -1 noise_floor_db -75''
       = Break st'"
    by blast
  then show ?thesis
    by (simp add: eval_defs)
qed

section \<open>C8: a baseline key that was not measured\<close>

text \<open>
  C8. When a key of the baseline is absent from the measurement map,
  \<open>get_frequency_swr_pairs\<close> returns no list of pairs: it returns normally only when every
  baseline key is a key of the measurement map. On maps whose lists of readings are all
  non-empty, as a scan that is not interrupted produces them, the exception raised is the
  lookup error \<^verbatim>\<open>KeyError\<close>.
\<close>

theorem missing_key_is_lookup_error:
  assumes "k |\<in>| fmdom baseline" and "k |\<notin>| fmdom measurements"
  shows "(\<forall>pairs. get_frequency_swr_pairs Some baseline measurements \<noteq> Inr pairs) \<and>
         ((\<forall>k pre. fmlookup baseline k = Some pre \<longrightarrow> pre \<noteq> []) \<and>
          (\<forall>k post. fmlookup measurements k = Some post \<longrightarrow> post \<noteq> []) \<longrightarrow>
          get_frequency_swr_pairs Some baseline measurements = Inl KeyError)"
proof -
  from assms(1) have ks: "k \<in> set (sorted_list_of_fset (fmdom baseline))" by simp
  from assms(2) have none: "fmlookup measurements k = None" by auto
  have 1: "\<forall>pairs. get_frequency_swr_pairs Some baseline measurements \<noteq> Inr pairs"
    unfolding get_frequency_swr_pairs_def using swr_pairs_loop_missing[OF ks none] by blast
  have 2: "get_frequency_swr_pairs Some baseline measurements = Inl KeyError"
    if b: "\<forall>k pre. fmlookup baseline k = Some pre \<longrightarrow> pre \<noteq> []"
      and m: "\<forall>k post. fmlookup measurements k = Some post \<longrightarrow> post \<noteq> []"
  proof -
    have "\<forall>k \<in> set (sorted_list_of_fset (fmdom baseline)). \<exists>pre. fmlookup baseline k = Some pre \<and> pre \<noteq> []"
      using b by (auto simp: fmlookup_dom_iff)
    from swr_pairs_loop_KeyError[OF ks none this m] show ?thesis
      by (simp add: get_frequency_swr_pairs_def)
  qed
  from 1 2 show ?thesis by blast
qed

text \<open>The theorem on a baseline with the key 2000 and an empty measurement map.\<close>

theorem missing_key_is_lookup_error_witness:
  "get_frequency_swr_pairs Some (fmupd 2000 [-70] fmempty) fmempty = Inl KeyError"
proof -
  have 1: "2000 |\<in>| fmdom (fmupd (2000::real) [-70::real] fmempty)" by simp
  have 2: "2000 |\<notin>| fmdom (fmempty :: freq_map)" by simp
  from missing_key_is_lookup_error[OF 1 2] show ?thesis
    by (auto split: if_splits)
qed

section \<open>The SWR in exact arithmetic\<close>

text \<open>
  The formula of lines 186-187 over the real numbers: for every loss of at least 0.001 the
  denominator \<open>10 powr (loss / 20) - 1\<close> is positive and the quotient is at least 1; the
  quotient decreases strictly when the loss increases; the floored loss is at least 0.001;
  and every SWR in a list returned by the model of \<open>get_frequency_swr_pairs\<close> is at least 1.
  This is a statement about the formula. The program evaluates it in binary floating point,
  where a reading can be NaN or infinite, \<^verbatim>\<open>10 ** (loss / 20)\<close> is rounded and overflows for
  large losses, and the quotient is 1.0 for every large loss: C9, which is about the values
  the program computes, is not decided by it.
\<close>

lemma swr_formula_exact:
  "(0.001 \<le> (loss::real) \<longrightarrow>
      0 < 10 powr (loss / 20) - 1 \<and>
      swr_of_loss loss = Inr ((10 powr (loss / 20) + 1) / (10 powr (loss / 20) - 1)) \<and>
      1 \<le> (10 powr (loss / 20) + 1) / (10 powr (loss / 20) - 1)) \<and>
   (0.001 \<le> (a::real) \<and> a < b \<longrightarrow>
      (10 powr (b / 20) + 1) / (10 powr (b / 20) - 1)
        < (10 powr (a / 20) + 1) / (10 powr (a / 20) - 1)) \<and>
   0.001 \<le> max (pre_value - post_value) (0.001::real) \<and>
   (get_frequency_swr_pairs flt baseline measurements = Inr pairs \<longrightarrow>
      (\<forall>(f, swr) \<in> set pairs. 1 \<le> swr))"
proof (intro conjI impI)
  assume l: "0.001 \<le> loss"
  then have pos: "0 < loss" by simp
  from ratio_gt_one[OF pos] show "0 < 10 powr (loss / 20) - 1" by simp
  from swr_of_loss_Inr[OF pos]
  show "swr_of_loss loss = Inr ((10 powr (loss / 20) + 1) / (10 powr (loss / 20) - 1))" .
  from quotient_gt_one[OF ratio_gt_one[OF pos]]
  show "1 \<le> (10 powr (loss / 20) + 1) / (10 powr (loss / 20) - 1)" by simp
next
  assume ab: "0.001 \<le> a \<and> a < b"
  then have "0 < a" "a < b" by simp_all
  from quotient_antimono[OF ratio_gt_one[OF this(1)] ratio_mono[OF this(2)]]
  show "(10 powr (b / 20) + 1) / (10 powr (b / 20) - 1)
        < (10 powr (a / 20) + 1) / (10 powr (a / 20) - 1)" .
next
  show "0.001 \<le> max (pre_value - post_value) (0.001::real)" by simp
next
  assume "get_frequency_swr_pairs flt baseline measurements = Inr pairs"
  then show "\<forall>(f, swr) \<in> set pairs. 1 \<le> swr"
    unfolding get_frequency_swr_pairs_def by (rule swr_pairs_loop_ge_one) simp
qed

text \<open>The statement on the losses 10 and 20 and on the maps of the round-trip example.\<close>

lemma swr_formula_exact_instance:
  "(0.001::real) \<le> 10 \<and> 0 < 10 powr (10 / 20) - (1::real) \<and>
   swr_of_loss 10 = Inr ((10 powr (10 / 20) + 1) / (10 powr (10 / 20) - 1)) \<and>
   (0.001::real) \<le> 10 \<and> (10::real) < 20 \<and>
   (10 powr (20 / 20) + 1) / (10 powr (20 / 20) - 1)
     < (10 powr (10 / 20) + 1) / (10 powr (10 / 20) - (1::real)) \<and>
   get_frequency_swr_pairs Some (fmupd 1000 [-70, -70] fmempty) (fmupd 1000 [-80, -80] fmempty)
     = Inr [(1000, (10 powr (1 / 2) + 1) / (10 powr (1 / 2) - 1))] \<and>
   1 \<le> (10 powr (1 / 2) + 1) / (10 powr (1 / 2) - (1::real))"
  using swr_formula_exact[where loss = 10 and a = 10 and b = 20 and flt = Some
      and baseline = "fmupd 1000 [-70, -70] fmempty"
      and measurements = "fmupd 1000 [-80, -80] fmempty"
      and pairs = "[(1000, (10 powr (1 / 2) + 1) / (10 powr (1 / 2) - 1))]"]
    swr_pairs_example
  by simp

section \<open>C10: no key without a reading\<close>

text \<open>
  C10. The claim fails for Format B. Lines 168-169 create the key with an empty list and
  append the reading in two steps; a \<^verbatim>\<open>KeyboardInterrupt\<close> raised between them reaches the
  handler of lines 170-171, which has no \<^verbatim>\<open>raise\<close>, and line 173 returns the map with the
  empty list. On the example line, interrupted at its first reading, the scan returns the
  key 750000000 with no reading, and the deriver divides by zero on that map; interrupted at
  its second reading, it returns the key 750100000 with no reading.
\<close>

theorem interrupted_record_leaves_empty_list:
  "get_antenna_statistics_rtl_power_async decimal_float 1
     [Interrupted_at rtl_power_example (In_record 0)] =
     (Inr (fmupd 750000000 [] fmempty), 1) \<and>
   fmlookup (fmupd (750000000::real) ([]::real list) fmempty) 750000000 = Some [] \<and>
   get_frequency_swr_pairs Some (fmupd 750000000 [-68.3] fmempty) (fmupd 750000000 [] fmempty)
     = Inl ZeroDivisionError \<and>
   get_antenna_statistics_rtl_power_async decimal_float 1
     [Interrupted_at rtl_power_example (In_record 1)] =
     (Inr (fmupd 750100000 [] (fmupd 750000000 [-68.3] fmempty)), 1)"
  by (simp add: rtl_power_example_def eval_async eval_defs get_frequency_swr_pairs_def
      sorted_list_of_fset_eq mean_def)

section \<open>Further properties of the scans\<close>

text \<open>
  X1. On every finite output stream \<open>get_antenna_statistics_rtl_power\<close> returns: the child's
  output ends, \<^verbatim>\<open>readline\<close> gives the empty string and line 139 leaves the loop. The result
  is a map or the \<^verbatim>\<open>ValueError\<close> of a reading that is not numeric.
\<close>

theorem rtl_power_scan_returns:
  "(\<exists>m n. get_antenna_statistics_rtl_power flt loops evs = Some (Inr m, n)) \<or>
   (\<exists>n. get_antenna_statistics_rtl_power flt loops evs = Some (Inl ValueError, n))"
  using rtl_power_loop_returns[of flt loops initial_state evs]
  by (auto simp: get_antenna_statistics_rtl_power_def)

text \<open>
  X2. \<open>get_antenna_statistics_osmocom\<close> returns a map only through the \<^verbatim>\<open>break\<close> of line 96,
  after the one signal of line 95: no stream makes it return a partial sweep.
\<close>

theorem osmocom_returns_only_on_completion:
  assumes "get_antenna_statistics_osmocom flt loops evs = Some (Inr m, n)"
  shows "n = 1"
  using osmocom_loop_returns_after_signal[of flt loops initial_state evs m n] assms
  by (simp add: get_antenna_statistics_osmocom_def initial_state_def)

theorem osmocom_returns_only_on_completion_witness:
  "get_antenna_statistics_osmocom decimal_float 1 sweep_example =
     Some (Inr (fmupd 30 [-3] (fmupd 20 [-2] (fmupd 10 [-1] fmempty))), 1)"
  using osmocom_returns_only_on_completion[OF sweep_example_whole] sweep_example_whole
  by simp

text \<open>
  X3. In the Format B scan \<^verbatim>\<open>float(power)\<close> of line 169 is outside the \<^verbatim>\<open>try\<close> of lines
  142-152: a reading that is not numeric raises \<^verbatim>\<open>ValueError\<close> out of the scan, and the
  readings recorded before it are lost.
\<close>

theorem rtl_power_raises_on_non_numeric_reading:
  "get_antenna_statistics_rtl_power decimal_float 1
     [Line ''2015-08-17, 20:32:17, 750000000, 950000000, 100000, 2, -68.3, n/a''] =
   Some (Inl ValueError, 0)"
  by (simp add: get_antenna_statistics_rtl_power_def rtl_power_loop_Line eval_defs)

text \<open>
  X4. The \<^verbatim>\<open>break\<close> of line 166 leaves the \<^verbatim>\<open>for\<close> loop only. After the loop count has
  reached the threshold the Format B scan keeps reading: every further line of data sends
  the signal again and records nothing, until the output ends. Here the second line wraps
  around and the third line is read after that.
\<close>

theorem rtl_power_reads_on_after_completion:
  "get_antenna_statistics_rtl_power decimal_float 1
     [Line ''2015-08-17, 20:32:17, 10, 40, 10, 3, -1, -2, -3'',
      Line ''2015-08-17, 20:32:18, 5, 40, 10, 3, -4, -5, -6'',
      Line ''2015-08-17, 20:32:19, 50, 80, 10, 3, -7, -8, -9''] =
   Some (Inr (fmupd 30 [-3] (fmupd 20 [-2] (fmupd 10 [-1] fmempty))), 2)"
  by (simp add: get_antenna_statistics_rtl_power_def rtl_power_loop_Line rtl_power_loop_Nil
      eval_defs)

text \<open>
  X5. Where the invariant of C10 does hold. Every map returned by the Format A scan (with
  the interrupt in \<^verbatim>\<open>readline\<close>, and re-raised by line 102) has no key without a reading;
  so has every map returned by the Format B scan when no interrupt is raised between
  \<^verbatim>\<open>setdefault\<close> and \<^verbatim>\<open>append\<close>, wherever else it is raised; the empty map has the
  property and \<^verbatim>\<open>setdefault(k, []).append(p)\<close> as a whole keeps it; and on maps with the
  property the deriver never raises \<^verbatim>\<open>ZeroDivisionError\<close>.
\<close>

theorem maps_nonempty_unless_interrupted_in_record:
  "(get_antenna_statistics_osmocom flt loops evs = Some (Inr m, n) \<longrightarrow> nonempty_readings m) \<and>
   (list_all no_interrupt_in_record aevs \<and>
    get_antenna_statistics_rtl_power_async flt loops aevs = (Inr m', n') \<longrightarrow>
      nonempty_readings m') \<and>
   nonempty_readings (fmempty :: freq_map) \<and>
   (nonempty_readings m \<longrightarrow> nonempty_readings (setdefault_append k p m)) \<and>
   (nonempty_readings baseline \<and> nonempty_readings measurements \<longrightarrow>
      get_frequency_swr_pairs key_flt baseline measurements \<noteq> Inl ZeroDivisionError)"
proof (intro conjI impI)
  assume "get_antenna_statistics_osmocom flt loops evs = Some (Inr m, n)"
  then show "nonempty_readings m"
    unfolding get_antenna_statistics_osmocom_def
    by (rule osmocom_loop_nonempty) (simp add: initial_state_def nonempty_fmempty)
next
  assume h: "list_all no_interrupt_in_record aevs \<and>
    get_antenna_statistics_rtl_power_async flt loops aevs = (Inr m', n')"
  have "nonempty_readings (frequencies initial_state)"
    by (simp add: initial_state_def nonempty_fmempty)
  with h show "nonempty_readings m'"
    unfolding get_antenna_statistics_rtl_power_async_def
    using rtl_power_async_nonempty by blast
next
  show "nonempty_readings (fmempty :: freq_map)" by (rule nonempty_fmempty)
next
  assume "nonempty_readings m"
  then show "nonempty_readings (setdefault_append k p m)" by (rule nonempty_setdefault_append)
next
  assume "nonempty_readings baseline \<and> nonempty_readings measurements"
  then show "get_frequency_swr_pairs key_flt baseline measurements \<noteq> Inl ZeroDivisionError"
    unfolding get_frequency_swr_pairs_def using swr_pairs_loop_no_zero_division by blast
qed

text \<open>The statement on the scans of the concrete inputs, the Format B line interrupted at
  the start of its second bin.\<close>

theorem maps_nonempty_unless_interrupted_in_record_witness:
  "get_antenna_statistics_osmocom decimal_float 1 sweep_example =
     Some (Inr (fmupd 30 [-3] (fmupd 20 [-2] (fmupd 10 [-1] fmempty))), 1) \<and>
   nonempty_readings (fmupd 30 [-3] (fmupd 20 [-2] (fmupd (10::real) [-1::real] fmempty))) \<and>
   get_antenna_statistics_rtl_power_async decimal_float 1
     [Interrupted_at rtl_power_example (At_bin 1)] =
     (Inr (fmupd 750000000 [-68.3] fmempty), 1) \<and>
   nonempty_readings (fmupd (750000000::real) [-68.3::real] fmempty) \<and>
   get_frequency_swr_pairs Some
     (fmupd (750000000::real) [-68.3::real] fmempty)
     (fmupd 30 [-3] (fmupd 20 [-2] (fmupd (10::real) [-1::real] fmempty)))
     \<noteq> Inl ZeroDivisionError"
proof -
  have scan: "get_antenna_statistics_rtl_power_async decimal_float 1
     [Interrupted_at rtl_power_example (At_bin 1)] =
     (Inr (fmupd 750000000 [-68.3] fmempty), 1)"
    by (simp add: rtl_power_example_def eval_async eval_defs)
  have ok: "list_all no_interrupt_in_record [Interrupted_at rtl_power_example (At_bin 1)]"
    by simp
  from maps_nonempty_unless_interrupted_in_record[where flt = decimal_float and loops = 1
      and evs = sweep_example
      and m = "fmupd 30 [-3] (fmupd 20 [-2] (fmupd 10 [-1] fmempty))" and n = 1
      and aevs = "[Interrupted_at rtl_power_example (At_bin 1)]"
      and m' = "fmupd 750000000 [-68.3] fmempty" and n' = 1
      and k = 0 and p = 0
      and baseline = "fmupd 750000000 [-68.3] fmempty"
      and measurements = "fmupd 30 [-3] (fmupd 20 [-2] (fmupd 10 [-1] fmempty))"
      and key_flt = Some]
    sweep_example_whole scan ok
  show ?thesis by simp
qed

end
